theory Spec2Isabelle
  imports Complex_Main
begin

section \<open>Double precision values\<close>

text \<open>
  \<open>Double_t\<close> is modelled as the real numbers extended by the three special values of
  IEEE arithmetic that the code can produce: a division by zero or a logarithm of zero
  gives an infinity, \<open>0/0\<close> and \<open>inf - inf\<close> give a NaN, and a comparison with a NaN
  is false. Arithmetic on finite values is exact: the rounding, the overflow and the
  underflow of binary64 are not modelled, and what is proved below about finite values is
  proved of the source's arithmetic taken exactly.
  Zero has no sign. A zero divisor is taken as \<open>+0\<close>; every divisor of the functions below
  that can be zero is an accumulator that starts at \<open>+0\<close> (\<open>sumw\<close>, \<open>newSumw\<close>,
  \<open>norm\<close>, \<open>sum\<close>), and such a sum is never \<open>-0\<close>.
\<close>

datatype Double_t = is_Fin: Fin (val: real) | PInf | NInf | NaN

fun dneg :: "Double_t \<Rightarrow> Double_t" where
  "dneg (Fin a) = Fin (- a)"
| "dneg PInf = NInf"
| "dneg NInf = PInf"
| "dneg NaN = NaN"

fun dadd :: "Double_t \<Rightarrow> Double_t \<Rightarrow> Double_t" where
  "dadd NaN _ = NaN"
| "dadd _ NaN = NaN"
| "dadd (Fin a) (Fin b) = Fin (a + b)"
| "dadd PInf NInf = NaN"
| "dadd NInf PInf = NaN"
| "dadd PInf _ = PInf"
| "dadd _ PInf = PInf"
| "dadd NInf _ = NInf"
| "dadd _ NInf = NInf"

definition dsub :: "Double_t \<Rightarrow> Double_t \<Rightarrow> Double_t" where
  "dsub a b = dadd a (dneg b)"

fun dmul :: "Double_t \<Rightarrow> Double_t \<Rightarrow> Double_t" where
  "dmul NaN _ = NaN"
| "dmul _ NaN = NaN"
| "dmul (Fin a) (Fin b) = Fin (a * b)"
| "dmul (Fin a) PInf = (if a = 0 then NaN else if 0 < a then PInf else NInf)"
| "dmul (Fin a) NInf = (if a = 0 then NaN else if 0 < a then NInf else PInf)"
| "dmul PInf (Fin b) = (if b = 0 then NaN else if 0 < b then PInf else NInf)"
| "dmul NInf (Fin b) = (if b = 0 then NaN else if 0 < b then NInf else PInf)"
| "dmul PInf PInf = PInf"
| "dmul PInf NInf = NInf"
| "dmul NInf PInf = NInf"
| "dmul NInf NInf = PInf"

fun ddiv :: "Double_t \<Rightarrow> Double_t \<Rightarrow> Double_t" where
  "ddiv NaN _ = NaN"
| "ddiv _ NaN = NaN"
| "ddiv (Fin a) (Fin b) =
     (if b = 0 then (if a = 0 then NaN else if 0 < a then PInf else NInf)
      else Fin (a / b))"
| "ddiv (Fin a) PInf = Fin 0"
| "ddiv (Fin a) NInf = Fin 0"
| "ddiv PInf (Fin b) = (if 0 \<le> b then PInf else NInf)"
| "ddiv NInf (Fin b) = (if 0 \<le> b then NInf else PInf)"
| "ddiv PInf PInf = NaN"
| "ddiv PInf NInf = NaN"
| "ddiv NInf PInf = NaN"
| "ddiv NInf NInf = NaN"

text \<open>\<open>a > b\<close> on doubles.\<close>

fun dgt :: "Double_t \<Rightarrow> Double_t \<Rightarrow> bool" where
  "dgt NaN _ = False"
| "dgt _ NaN = False"
| "dgt (Fin a) (Fin b) = (b < a)"
| "dgt PInf PInf = False"
| "dgt PInf _ = True"
| "dgt _ PInf = False"
| "dgt NInf _ = False"
| "dgt _ NInf = True"

text \<open>\<open>log\<close> of \<open>math.h\<close>: the natural logarithm.\<close>

fun dlog :: "Double_t \<Rightarrow> Double_t" where
  "dlog (Fin a) = (if a < 0 then NaN else if a = 0 then NInf else Fin (ln a))"
| "dlog PInf = PInf"
| "dlog NInf = NaN"
| "dlog NaN = NaN"

text \<open>
  The value of an accumulator \<open>acc\<close> after \<open>acc += x\<close> for every \<open>x\<close> of a sequence,
  and the sum of a sequence accumulated from zero.
\<close>

definition dacc :: "Double_t \<Rightarrow> Double_t list \<Rightarrow> Double_t" where
  "dacc acc xs = foldl dadd acc xs"

definition dsum :: "Double_t list \<Rightarrow> Double_t" where
  "dsum xs = dacc (Fin 0) xs"

section \<open>Events, trees and the method object\<close>

text \<open>
  An event carries its class label, its weight and the values of the input variables.
  The sample is a vector of pointers to distinct events (\<open>InitEventSample\<close> allocates one
  event per row), so a pass that calls \<open>SetWeight\<close> on every element is a pass over a list
  of records that returns the updated list.
\<close>

record Event =
  IsSignal :: bool
  GetWeight :: Double_t
  GetVal :: "Double_t list"

definition SetWeight :: "Double_t \<Rightarrow> Event \<Rightarrow> Event" where
  "SetWeight w e = e\<lparr>GetWeight := w\<rparr>"

text \<open>
  A text stream is modelled after tokenisation at white space, each token with its lexical
  class: an integer literal, another decimal literal with the number it denotes, or any
  other word.
\<close>

datatype token = IntT int | DblT real | Str string

text \<open>
  \<open>TMVA::DecisionTree\<close> is not part of the sources. A tree is taken as a parameter: the
  record of what the functions below ask of it, namely the score \<open>CheckEvent\<close> of an event
  under the leaf mode \<open>UseYesNoLeaf\<close>, the per-variable importance vector, and the tokens
  that \<open>Print\<close> writes to a stream.
\<close>

record DecisionTree =
  CheckEvent :: "Event \<Rightarrow> bool \<Rightarrow> Double_t"
  GetVariableImportance_dt :: "Double_t list"
  Print :: "token list"

text \<open>The members of \<open>TMVA::MethodBDT\<close> that the functions below read or write.
  \<open>GetNvar\<close> is the number of input variables, a method of the base class.\<close>

record MethodBDT =
  fNTrees :: int
  fUseYesNoLeaf :: bool
  fUseWeightedTrees :: bool
  fForest :: "DecisionTree list"
  fBoostWeights :: "Double_t list"
  fVariableImportance :: "Double_t list"
  fBoostWeight :: Double_t
  fErrorFraction :: Double_t
  GetNvar :: nat

section \<open>AdaBoost\<close>

text \<open>
  The first loop of \<open>AdaBoost\<close>: it accumulates \<open>sumw\<close> and \<open>sumwfalse\<close> and appends one
  entry per event to \<open>correctSelected\<close>. (The counter \<open>count\<close> of the source is never
  read and is left out.)
\<close>

fun AdaBoost_classify ::
  "bool \<Rightarrow> DecisionTree \<Rightarrow> Event list \<Rightarrow> Double_t \<times> Double_t \<times> bool list
    \<Rightarrow> Double_t \<times> Double_t \<times> bool list" where
  "AdaBoost_classify yn dt [] acc = acc"
| "AdaBoost_classify yn dt (e # es) (sumw, sumwfalse, correctSelected) =
     (let isSignalType = dgt (CheckEvent dt e yn) (Fin (1/2));
          sumw = dadd sumw (GetWeight e)
      in if isSignalType = IsSignal e
         then AdaBoost_classify yn dt es (sumw, sumwfalse, correctSelected @ [True])
         else AdaBoost_classify yn dt es
                (sumw, dadd sumwfalse (GetWeight e), correctSelected @ [False]))"

text \<open>
  The second loop: the weight of event number \<open>i\<close> is multiplied by \<open>boostWeight\<close> when
  \<open>correctSelected[i]\<close> is false, and \<open>newSumw\<close> accumulates the weights as they are then.
  \<open>correctSelected\<close> has one entry per event (lemma \<open>AdaBoost_classify_length\<close>), so the
  index is in range.
\<close>

fun AdaBoost_reweight ::
  "Double_t \<Rightarrow> bool list \<Rightarrow> Event list \<Rightarrow> nat \<Rightarrow> Double_t \<Rightarrow> Event list \<times> Double_t" where
  "AdaBoost_reweight boostWeight correctSelected [] i newSumw = ([], newSumw)"
| "AdaBoost_reweight boostWeight correctSelected (e # es) i newSumw =
     (let e' = (if \<not> correctSelected ! i
                then SetWeight (dmul (GetWeight e) boostWeight) e else e);
          (es', newSumw') =
             AdaBoost_reweight boostWeight correctSelected es (i + 1)
               (dadd newSumw (GetWeight e'))
      in (e' # es', newSumw'))"

text \<open>The third loop: \<open>SetWeight(GetWeight() * sumw / newSumw)\<close> on every event.\<close>

definition AdaBoost_renormalise :: "Double_t \<Rightarrow> Double_t \<Rightarrow> Event list \<Rightarrow> Event list" where
  "AdaBoost_renormalise sumw newSumw es =
     map (\<lambda>e. SetWeight (ddiv (dmul (GetWeight e) sumw) newSumw) e) es"

text \<open>
  \<open>adaBoostBeta\<close> is the constant 1, so of the two ways to compute \<open>boostWeight\<close> for
  \<open>err > 0\<close> only \<open>(1-err)/err\<close> is ever taken.
\<close>

definition AdaBoost_boostWeight :: "Double_t \<Rightarrow> Double_t" where
  "AdaBoost_boostWeight err =
     (if dgt err (Fin 0) then ddiv (dsub (Fin 1) err) err else Fin 1000)"

text \<open>
  \<open>AdaBoost\<close> returns the reweighted sample, the value it returns (\<open>log(boostWeight)\<close>)
  and the object with its two monitoring members set. Filling the monitoring histograms
  is left out.
\<close>

definition AdaBoost ::
  "MethodBDT \<Rightarrow> Event list \<Rightarrow> DecisionTree \<Rightarrow> Event list \<times> Double_t \<times> MethodBDT" where
  "AdaBoost this eventSample dt =
     (let (sumw, sumwfalse, correctSelected) =
            AdaBoost_classify (fUseYesNoLeaf this) dt eventSample (Fin 0, Fin 0, []);
          err = ddiv sumwfalse sumw;
          boostWeight = AdaBoost_boostWeight err;
          (boosted, newSumw) =
            AdaBoost_reweight boostWeight correctSelected eventSample 0 (Fin 0);
          renormalised = AdaBoost_renormalise sumw newSumw boosted
      in (renormalised, dlog boostWeight,
          this\<lparr>fBoostWeight := boostWeight, fErrorFraction := err\<rparr>))"

text \<open>An event is misclassified when the tree's verdict \<open>score > 0.5\<close> differs from its label.\<close>

definition misclassified :: "bool \<Rightarrow> DecisionTree \<Rightarrow> Event \<Rightarrow> bool" where
  "misclassified yn dt e = (dgt (CheckEvent dt e yn) (Fin (1/2)) \<noteq> IsSignal e)"

text \<open>
  The weights of a sample; a weight that is a non-negative real number; the event after
  the second loop.
\<close>

definition weights :: "Event list \<Rightarrow> Double_t list" where
  "weights es = map GetWeight es"

definition finite_nonneg :: "Double_t \<Rightarrow> bool" where
  "finite_nonneg d = (is_Fin d \<and> 0 \<le> val d)"

definition boosted :: "Double_t \<Rightarrow> bool \<Rightarrow> DecisionTree \<Rightarrow> Event \<Rightarrow> Event" where
  "boosted boostWeight yn dt e =
     (if misclassified yn dt e then SetWeight (dmul (GetWeight e) boostWeight) e else e)"

section \<open>Bagging\<close>

text \<open>
  Modelled from the spec: the generator \<open>TRandom\<close>, which is not part of the sources.
  The spec says of it that the round index is "used as a deterministic pseudo-random seed"
  and that \<open>Bagging\<close> draws "one uniform random value in \<open>[0,1)\<close> per event". The
  generator is a parameter: the state that the constructor \<open>TRandom(iTree)\<close> builds from
  the seed, and \<open>Rndm\<close>, which returns a draw and the next state. \<open>Rndm_range\<close> is the
  range the spec gives for a draw. That the draws are uniformly distributed is not modelled.
\<close>

record 'g TRandom =
  TRandom_new :: "int \<Rightarrow> 'g"
  Rndm :: "'g \<Rightarrow> real \<times> 'g"

definition Rndm_range :: "real \<Rightarrow> bool" where
  "Rndm_range r = (0 \<le> r \<and> r < 1)"

text \<open>The first loop of \<open>Bagging\<close>: every event gets a fresh draw as its weight.\<close>

fun Bagging_draw ::
  "'g TRandom \<Rightarrow> Event list \<Rightarrow> 'g \<Rightarrow> Double_t \<Rightarrow> Event list \<times> Double_t" where
  "Bagging_draw R [] trandom newSumw = ([], newSumw)"
| "Bagging_draw R (e # es) trandom newSumw =
     (let (newWeight, trandom') = Rndm R trandom;
          e' = SetWeight (Fin newWeight) e;
          (es', newSumw') = Bagging_draw R es trandom' (dadd newSumw (GetWeight e'))
      in (e' # es', newSumw'))"

definition Bagging :: "'g TRandom \<Rightarrow> Event list \<Rightarrow> int \<Rightarrow> Event list \<times> Double_t" where
  "Bagging R eventSample iTree =
     (let trandom = TRandom_new R iTree;
          (drawn, newSumw) = Bagging_draw R eventSample trandom (Fin 0)
      in (map (\<lambda>e. SetWeight
                  (ddiv (dmul (GetWeight e) (Fin (real (length eventSample)))) newSumw) e)
            drawn,
          Fin 1))"

text \<open>The raw draws of a round over \<open>n\<close> events, in the order they are drawn.\<close>

fun Rndm_sequence :: "'g TRandom \<Rightarrow> 'g \<Rightarrow> nat \<Rightarrow> real list" where
  "Rndm_sequence R trandom 0 = []"
| "Rndm_sequence R trandom (Suc n) =
     fst (Rndm R trandom) # Rndm_sequence R (snd (Rndm R trandom)) n"

section \<open>Failures\<close>

text \<open>
  \<open>IndexMismatch iTree i\<close> is the \<open>exit(1)\<close> of \<open>ReadWeightsFromStream\<close>.
  \<open>OutOfRange\<close> is an index beyond the end of a vector, which the source does not check.
  \<open>Uninitialised\<close> is the use of a local variable that no extraction has set: the
  source declares \<open>iTree\<close> and \<open>boostWeight\<close> without a value. \<open>NotModelled\<close> is
  the extraction of an \<open>Int_t\<close> from a decimal literal that is not an integer literal:
  the source reads the digits before the point or the exponent and leaves the rest of the
  literal in the stream, which the tokens cannot express.
\<close>

datatype error = IndexMismatch int int | OutOfRange | Uninitialised | NotModelled

definition vector_at :: "'a list \<Rightarrow> nat \<Rightarrow> error + 'a" where
  "vector_at xs i = (if i < length xs then Inr (xs ! i) else Inl OutOfRange)"

section \<open>Writing and reading the forest\<close>















section \<open>The ensemble score\<close>

text \<open>The loop of \<open>GetMvaValue\<close>; \<open>nrm\<close> is the variable \<open>norm\<close> of the source.\<close>

fun GetMvaValue_trees ::
  "MethodBDT \<Rightarrow> Event \<Rightarrow> DecisionTree list \<Rightarrow> nat \<Rightarrow> Double_t \<times> Double_t
     \<Rightarrow> error + Double_t \<times> Double_t" where
  "GetMvaValue_trees this ev [] itree (myMVA, nrm) = Inr (myMVA, nrm)"
| "GetMvaValue_trees this ev (t # ts) itree (myMVA, nrm) =
     (if fUseWeightedTrees this
      then (case vector_at (fBoostWeights this) itree of
              Inl err \<Rightarrow> Inl err
            | Inr w \<Rightarrow>
                GetMvaValue_trees this ev ts (itree + 1)
                  (dadd myMVA (dmul w (CheckEvent t ev (fUseYesNoLeaf this))), dadd nrm w))
      else GetMvaValue_trees this ev ts (itree + 1)
             (dadd myMVA (CheckEvent t ev (fUseYesNoLeaf this)), dadd nrm (Fin 1)))"

text \<open>\<open>ev\<close> is the current event of the data set, \<open>Data().Event()\<close>.\<close>

definition GetMvaValue :: "MethodBDT \<Rightarrow> Event \<Rightarrow> error + Double_t" where
  "GetMvaValue this ev =
     (case GetMvaValue_trees this ev (fForest this) 0 (Fin 0, Fin 0) of
        Inl err \<Rightarrow> Inl err
      | Inr (myMVA, nrm) \<Rightarrow> Inr (ddiv myMVA nrm))"

text \<open>The normalizer of the score: the sum of the round weights, or the number of trees.\<close>

definition normalizer :: "MethodBDT \<Rightarrow> Double_t" where
  "normalizer this =
     (if fUseWeightedTrees this
      then dsum (take (length (fForest this)) (fBoostWeights this))
      else Fin (real (length (fForest this))))"

section \<open>Variable importance\<close>

text \<open>\<open>v.resize(n)\<close> keeps the first \<open>n\<close> elements and fills up with zeros.\<close>

definition resize :: "nat \<Rightarrow> Double_t list \<Rightarrow> Double_t list" where
  "resize n v = take n v @ replicate (n - length v) (Fin 0)"

text \<open>The inner loop: \<open>fVariableImportance[i] += relativeImportance[i]\<close> for every \<open>i\<close>.\<close>

fun add_importance :: "Double_t list \<Rightarrow> nat \<Rightarrow> Double_t list \<Rightarrow> error + Double_t list" where
  "add_importance v i [] = Inr v"
| "add_importance v i (r # rs) =
     (if i < length v then add_importance (v[i := dadd (v ! i) r]) (i + 1) rs
      else Inl OutOfRange)"

text \<open>The loop over the trees \<open>0 .. fNTrees - 1\<close>, with the number of iterations left.\<close>

fun GetVariableImportance_trees ::
  "DecisionTree list \<Rightarrow> nat \<Rightarrow> nat \<Rightarrow> Double_t list \<Rightarrow> error + Double_t list" where
  "GetVariableImportance_trees forest 0 itree v = Inr v"
| "GetVariableImportance_trees forest (Suc n) itree v =
     (case vector_at forest itree of
        Inl err \<Rightarrow> Inl err
      | Inr t \<Rightarrow>
          (case add_importance v 0 (GetVariableImportance_dt t) of
             Inl err \<Rightarrow> Inl err
           | Inr v' \<Rightarrow> GetVariableImportance_trees forest n (itree + 1) v'))"

text \<open>
  \<open>GetVariableImportance\<close> returns the vector and the object, whose member
  \<open>fVariableImportance\<close> holds the same vector afterwards; \<open>total\<close> is the variable
  \<open>sum\<close> of the source.
\<close>

definition GetVariableImportance :: "MethodBDT \<Rightarrow> error + Double_t list \<times> MethodBDT" where
  "GetVariableImportance this =
     (case GetVariableImportance_trees (fForest this) (nat (fNTrees this)) 0
             (resize (GetNvar this) (fVariableImportance this)) of
        Inl err \<Rightarrow> Inl err
      | Inr v \<Rightarrow>
          (let total = dsum v;
               v' = map (\<lambda>x. ddiv x total) v
           in Inr (v', this\<lparr>fVariableImportance := v'\<rparr>)))"

text \<open>The element-wise sum of the importance vectors of the trees, over \<open>n\<close> variables.\<close>

definition importance_sum :: "nat \<Rightarrow> DecisionTree list \<Rightarrow> real list" where
  "importance_sum n forest =
     map (\<lambda>i. sum_list (map (\<lambda>t. val (GetVariableImportance_dt t ! i)) forest)) [0..<n]"

section \<open>Concrete objects for the examples\<close>

text \<open>
  A tree that scores every event as signal, one whose score is the first input variable,
  a background and a signal event of a given weight, and a method object with an empty
  forest.
\<close>

definition always_signal :: DecisionTree where
  "always_signal =
     \<lparr>CheckEvent = (\<lambda>e yn. Fin 1), GetVariableImportance_dt = [], Print = []\<rparr>"

definition background :: "real \<Rightarrow> Event" where
  "background w = \<lparr>IsSignal = False, GetWeight = Fin w, GetVal = []\<rparr>"

definition signal :: "real \<Rightarrow> Event" where
  "signal w = \<lparr>IsSignal = True, GetWeight = Fin w, GetVal = []\<rparr>"

definition untrained :: MethodBDT where
  "untrained =
     \<lparr>fNTrees = 0, fUseYesNoLeaf = True, fUseWeightedTrees = True, fForest = [],
      fBoostWeights = [], fVariableImportance = [], fBoostWeight = Fin 0,
      fErrorFraction = Fin 0, GetNvar = 0\<rparr>"

text \<open>
  The forest of the spec's example: two trees with the scores 0.8 and 0.4 and the round
  weights 2 and 3; and the same forest with the round weights 1 and -1, which sum to zero.
\<close>

definition two_trees :: "bool \<Rightarrow> MethodBDT" where
  "two_trees weighted =
     untrained\<lparr>fNTrees := 2, fUseWeightedTrees := weighted,
       fForest := [always_signal\<lparr>CheckEvent := (\<lambda>e yn. Fin (4/5))\<rparr>,
                   always_signal\<lparr>CheckEvent := (\<lambda>e yn. Fin (2/5))\<rparr>],
       fBoostWeights := [Fin 2, Fin 3]\<rparr>"

definition cancelling :: MethodBDT where
  "cancelling = (two_trees True)\<lparr>fBoostWeights := [Fin 1, Fin (- 1)]\<rparr>"

text \<open>
  A tree with a given importance vector; a new object with two variables and a forest of
  two such trees; a new object with a forest of one tree; and an object whose forest is
  replaced by another forest of one tree, as \<open>ReadWeightsFromStream\<close> replaces it,
  while the other members stay as they are.
\<close>

definition importance_tree :: "real list \<Rightarrow> DecisionTree" where
  "importance_tree rs = always_signal\<lparr>GetVariableImportance_dt := map Fin rs\<rparr>"

definition first_forest :: MethodBDT where
  "first_forest = untrained\<lparr>GetNvar := 2, fNTrees := 1, fForest := [importance_tree [1, 0]]\<rparr>"

definition second_forest :: "MethodBDT \<Rightarrow> MethodBDT" where
  "second_forest this = this\<lparr>fNTrees := 1, fForest := [importance_tree [1, 1]]\<rparr>"






text \<open>
  A generator for the examples: its state is a counter that starts at the seed, and the
  draw in state \<open>g\<close> is \<open>(g mod 4) / 4\<close>.
\<close>

definition counter_generator :: "nat TRandom" where
  "counter_generator =
     \<lparr>TRandom_new = (\<lambda>seed. nat seed), Rndm = (\<lambda>g. (real (g mod 4) / 4, Suc g))\<rparr>"

section \<open>Sums of doubles and the loops of AdaBoost\<close>

lemma dacc_Fin: "dacc (Fin a) (map Fin rs) = Fin (a + sum_list rs)"
  unfolding dacc_def by (induction rs arbitrary: a) (simp_all add: add.assoc)

lemma dsum_Fin: "dsum (map Fin rs) = Fin (sum_list rs)"
  by (simp add: dsum_def dacc_Fin)

lemma AdaBoost_classify_eq:
  "AdaBoost_classify yn dt es (sw, sf, cs) =
     (dacc sw (weights es), dacc sf (weights (filter (misclassified yn dt) es)),
      cs @ map (\<lambda>e. \<not> misclassified yn dt e) es)"
  by (induction es arbitrary: sw sf cs)
     (simp_all add: dacc_def weights_def misclassified_def Let_def)

lemma AdaBoost_classify_length:
  "length (snd (snd (AdaBoost_classify yn dt es (sw, sf, [])))) = length es"
  by (simp add: AdaBoost_classify_eq)

lemma boosted_mis: "misclassified yn dt e \<Longrightarrow>
    boosted bw yn dt e = SetWeight (dmul (GetWeight e) bw) e"
  by (simp add: boosted_def)

lemma boosted_ok: "\<not> misclassified yn dt e \<Longrightarrow> boosted bw yn dt e = e"
  by (simp add: boosted_def)

lemma AdaBoost_reweight_eq:
  "AdaBoost_reweight bw (pre @ map (\<lambda>e. \<not> misclassified yn dt e) es) es (length pre) n =
     (map (boosted bw yn dt) es, dacc n (weights (map (boosted bw yn dt) es)))"
proof (induction es arbitrary: pre n)
  case Nil
  show ?case by (simp add: dacc_def weights_def)
next
  case (Cons e es)
  have "AdaBoost_reweight bw ((pre @ [\<not> misclassified yn dt e]) @ map (\<lambda>e. \<not> misclassified yn dt e) es)
          es (length (pre @ [\<not> misclassified yn dt e])) m =
        (map (boosted bw yn dt) es, dacc m (weights (map (boosted bw yn dt) es)))" for m
    by (rule Cons.IH)
  then show ?case
    by (cases "misclassified yn dt e")
       (simp_all add: boosted_mis boosted_ok dacc_def weights_def nth_append Let_def)
qed

lemma AdaBoost_eq:
  "AdaBoost this es dt =
     (let yn = fUseYesNoLeaf this;
          sumw = dsum (weights es);
          sumwfalse = dsum (weights (filter (misclassified yn dt) es));
          err = ddiv sumwfalse sumw;
          boostWeight = AdaBoost_boostWeight err;
          es' = map (boosted boostWeight yn dt) es;
          newSumw = dsum (weights es')
      in (AdaBoost_renormalise sumw newSumw es', dlog boostWeight,
          this\<lparr>fBoostWeight := boostWeight, fErrorFraction := err\<rparr>))"
  using AdaBoost_reweight_eq [of _ "[]"]
  by (simp add: AdaBoost_def AdaBoost_classify_eq Let_def dsum_def)


lemma weights_finite:
  "\<forall>e\<in>set es. finite_nonneg (GetWeight e) \<Longrightarrow>
     weights es = map Fin (map (\<lambda>e. val (GetWeight e)) es)"
  by (induction es) (auto simp: weights_def finite_nonneg_def)

lemma sum_list_filter_le:
  fixes f :: "'a \<Rightarrow> real"
  assumes "\<forall>x\<in>set xs. 0 \<le> f x"
  shows "0 \<le> sum_list (map f (filter P xs))"
    and "sum_list (map f (filter P xs)) \<le> sum_list (map f xs)"
  using assms by (induction xs) (auto intro: add_increasing)

lemma sum_list_boosted_ge:
  fixes f :: "'a \<Rightarrow> real"
  assumes "\<forall>x\<in>set xs. 0 \<le> f x" and "0 \<le> b"
  shows "sum_list (map f xs) - sum_list (map f (filter P xs))
           \<le> sum_list (map (\<lambda>x. f x * (if P x then b else 1)) xs)"
  using assms
proof (induction xs)
  case Nil
  show ?case by simp
next
  case (Cons a xs)
  have ih: "sum_list (map f xs) - sum_list (map f (filter P xs))
           \<le> sum_list (map (\<lambda>x. f x * (if P x then b else 1)) xs)"
    using Cons by simp
  have "0 \<le> f a * b"
    using Cons.prems by simp
  with ih show ?case by simp
qed

lemma SetWeight_SetWeight: "SetWeight a (SetWeight b e) = SetWeight a e"
  by (simp add: SetWeight_def)

lemma SetWeight_same: "GetWeight e = w \<Longrightarrow> SetWeight w e = e"
  by (auto simp: SetWeight_def)

lemma GetWeight_SetWeight: "GetWeight (SetWeight w e) = w"
  by (simp add: SetWeight_def)

lemma AdaBoost_finite:
  fixes es :: "Event list" and this :: MethodBDT and dt :: DecisionTree
  defines "w \<equiv> \<lambda>e. val (GetWeight e)"
  defines "sw \<equiv> sum_list (map w es)"
  defines "sf \<equiv> sum_list (map w (filter (misclassified (fUseYesNoLeaf this) dt) es))"
  defines "err \<equiv> sf / sw"
  defines "bw \<equiv> (if 0 < err then (1 - err) / err else 1000)"
  defines "b \<equiv> \<lambda>e. w e * (if misclassified (fUseYesNoLeaf this) dt e then bw else 1)"
  defines "nsw \<equiv> sum_list (map b es)"
  assumes fin: "\<forall>e\<in>set es. finite_nonneg (GetWeight e)"
      and pos: "0 < sw" and lt: "sf < sw"
  shows "AdaBoost this es dt =
           (map (\<lambda>e. SetWeight (Fin (b e * sw / nsw)) e) es, Fin (ln bw),
            this\<lparr>fBoostWeight := Fin bw, fErrorFraction := Fin err\<rparr>)"
    and "0 < nsw" and "0 < bw" and "0 \<le> err" and "err < 1"
proof -
  let ?mis = "misclassified (fUseYesNoLeaf this) dt"
  have wnn: "\<forall>e\<in>set es. 0 \<le> w e"
    using fin by (simp add: finite_nonneg_def w_def)
  have sf0: "0 \<le> sf"
    unfolding sf_def using sum_list_filter_le(1) [OF wnn] .
  show e0: "0 \<le> err" and e1: "err < 1"
    using sf0 pos lt by (simp_all add: err_def)
  show bwpos: "0 < bw"
    using e0 e1 by (simp add: bw_def)
  have "sw - sf \<le> nsw"
    unfolding sw_def sf_def nsw_def b_def
    using sum_list_boosted_ge [OF wnn, of bw ?mis] bwpos by simp
  then show nswpos: "0 < nsw"
    using lt by simp
  have W: "weights es = map Fin (map w es)"
    unfolding w_def using fin by (rule weights_finite)
  have fin': "\<forall>e\<in>set (filter ?mis es). finite_nonneg (GetWeight e)"
    using fin by simp
  have Wf: "weights (filter ?mis es) = map Fin (map w (filter ?mis es))"
    unfolding w_def using fin' by (rule weights_finite)
  have s1: "dsum (weights es) = Fin sw"
    by (simp only: W dsum_Fin sw_def)
  have s2: "dsum (weights (filter ?mis es)) = Fin sf"
    by (simp only: Wf dsum_Fin sf_def)
  have s3: "ddiv (Fin sf) (Fin sw) = Fin err"
    using pos by (simp add: err_def)
  have s4: "AdaBoost_boostWeight (Fin err) = Fin bw"
    by (simp add: AdaBoost_boostWeight_def bw_def dsub_def)
  have gw: "GetWeight (boosted (Fin bw) (fUseYesNoLeaf this) dt e) = Fin (b e)"
    if "e \<in> set es" for e
    using that fin
    by (cases "GetWeight e")
       (auto simp: boosted_def b_def w_def GetWeight_SetWeight finite_nonneg_def)
  have s5: "weights (map (boosted (Fin bw) (fUseYesNoLeaf this) dt) es) = map Fin (map b es)"
    using gw by (simp add: weights_def)
  have s6: "dsum (weights (map (boosted (Fin bw) (fUseYesNoLeaf this) dt) es)) = Fin nsw"
    by (simp only: s5 dsum_Fin nsw_def)
  have s7: "AdaBoost_renormalise (Fin sw) (Fin nsw)
              (map (boosted (Fin bw) (fUseYesNoLeaf this) dt) es) =
            map (\<lambda>e. SetWeight (Fin (b e * sw / nsw)) e) es"
    using gw nswpos
    by (auto simp: AdaBoost_renormalise_def boosted_def SetWeight_SetWeight)
  have s8: "dlog (Fin bw) = Fin (ln bw)"
    using bwpos by simp
  show "AdaBoost this es dt =
           (map (\<lambda>e. SetWeight (Fin (b e * sw / nsw)) e) es, Fin (ln bw),
            this\<lparr>fBoostWeight := Fin bw, fErrorFraction := Fin err\<rparr>)"
    by (simp only: AdaBoost_eq Let_def s1 s2 s3 s4 s6 s7 s8)
qed

lemma sum_list_scale:
  fixes f :: "'a \<Rightarrow> real"
  shows "sum_list (map (\<lambda>x. f x * c / d) xs) = sum_list (map f xs) * c / d"
  by (induction xs) (simp_all add: add_divide_distrib distrib_right)

lemma AdaBoost_zero_error:
  assumes fin: "\<forall>e\<in>set es. finite_nonneg (GetWeight e)"
      and pos: "dgt (dsum (weights es)) (Fin 0)"
      and zero: "dsum (weights (filter (misclassified (fUseYesNoLeaf this) dt) es)) = Fin 0"
  shows "fst (AdaBoost this es dt) = es" and "fst (snd (AdaBoost this es dt)) = Fin (ln 1000)"
proof -
  let ?mis = "misclassified (fUseYesNoLeaf this) dt"
  let ?w = "\<lambda>e. val (GetWeight e)"
  let ?sw = "sum_list (map ?w es)"
  let ?sf = "sum_list (map ?w (filter ?mis es))"
  have fin': "\<forall>e\<in>set (filter ?mis es). finite_nonneg (GetWeight e)"
    using fin by simp
  have s1: "dsum (weights es) = Fin ?sw"
    by (simp only: weights_finite [OF fin] dsum_Fin)
  have s2: "dsum (weights (filter ?mis es)) = Fin ?sf"
    by (simp only: weights_finite [OF fin'] dsum_Fin)
  have p: "0 < ?sw" using pos by (simp add: s1)
  have z: "?sf = 0" using zero by (simp add: s2)
  have lt: "?sf < ?sw" using p z by simp
  note A = AdaBoost_finite [OF fin p lt]
  have "\<forall>x\<in>set (map ?w (filter ?mis es)). 0 \<le> x"
    using fin by (auto simp: finite_nonneg_def)
  then have "\<forall>x\<in>set (map ?w (filter ?mis es)). x = 0"
    using z sum_list_nonneg_eq_0_iff [of "map ?w (filter ?mis es)"] by blast
  then have mis0: "?w e = 0" if "e \<in> set es" "?mis e" for e
    using that by simp
  have b: "?w e * (if ?mis e then 1000 else 1) = ?w e" if "e \<in> set es" for e
    using mis0 [OF that] by simp
  have m: "map (\<lambda>e. ?w e * (if ?mis e then 1000 else 1)) es = map ?w es"
    by (rule map_cong [OF refl]) (rule b)
  have n: "sum_list (map (\<lambda>e. ?w e * (if ?mis e then 1000 else 1)) es) = ?sw"
    by (simp only: m)
  have g: "SetWeight (Fin (?w e)) e = e" if "e \<in> set es" for e
    using fin that by (intro SetWeight_same) (simp add: finite_nonneg_def)
  have "fst (AdaBoost this es dt) =
          map (\<lambda>e. SetWeight (Fin (?w e * (if ?mis e then 1000 else 1) * ?sw / ?sw)) e) es"
    by (simp add: A(1) z n)
  also have "\<dots> = map (\<lambda>e. SetWeight (Fin (?w e)) e) es"
    using p by (intro map_cong [OF refl]) (simp add: b)
  also have "\<dots> = es"
    using g by (simp add: map_idI)
  finally show "fst (AdaBoost this es dt) = es" .
  show "fst (snd (AdaBoost this es dt)) = Fin (ln 1000)"
    by (simp add: A(1) z)
qed

section \<open>The loops of Bagging\<close>

lemma Bagging_draw_eq:
  "Bagging_draw R es g n =
     (map2 (\<lambda>e r. SetWeight (Fin r) e) es (Rndm_sequence R g (length es)),
      dacc n (map Fin (Rndm_sequence R g (length es))))"
  by (induction es arbitrary: g n)
     (simp_all add: dacc_def GetWeight_SetWeight split: prod.splits)

lemma length_Rndm_sequence: "length (Rndm_sequence R g n) = n"
  by (induction n arbitrary: g) simp_all

lemma weights_map2_SetWeight:
  "length es = length ds \<Longrightarrow> weights (map2 (\<lambda>e d. SetWeight (f d) e) es ds) = map f ds"
  by (induction es ds rule: list_induct2) (simp_all add: weights_def GetWeight_SetWeight)

lemma Bagging_weights:
  "weights (fst (Bagging R es iTree)) =
     map (\<lambda>r. ddiv (dmul (Fin r) (Fin (real (length es))))
                 (Fin (sum_list (Rndm_sequence R (TRandom_new R iTree) (length es)))))
       (Rndm_sequence R (TRandom_new R iTree) (length es))"
proof -
  let ?ds = "Rndm_sequence R (TRandom_new R iTree) (length es)"
  have len: "length es = length ?ds"
    by (simp add: length_Rndm_sequence)
  have "fst (Bagging R es iTree) =
          map (\<lambda>e. SetWeight (ddiv (dmul (GetWeight e) (Fin (real (length es))))
                    (Fin (sum_list ?ds))) e)
            (map2 (\<lambda>e r. SetWeight (Fin r) e) es ?ds)"
    by (simp add: Bagging_def Bagging_draw_eq Let_def dacc_Fin)
  also have "\<dots> = map2 (\<lambda>e r. SetWeight (ddiv (dmul (Fin r) (Fin (real (length es))))
                    (Fin (sum_list ?ds))) e) es ?ds"
    by (simp add: GetWeight_SetWeight SetWeight_SetWeight case_prod_unfold)
  finally show ?thesis
    using weights_map2_SetWeight [OF len] by simp
qed

lemma Bagging_returns: "snd (Bagging R es iTree) = Fin 1"
  by (simp add: Bagging_def Let_def split: prod.splits)

section \<open>The loop of GetMvaValue\<close>

lemma GetMvaValue_trees_weighted:
  assumes "fUseWeightedTrees this" and "i + length ts \<le> length (fBoostWeights this)"
  shows "GetMvaValue_trees this ev ts i (m, n) =
           Inr (dacc m (map2 (\<lambda>w t. dmul w (CheckEvent t ev (fUseYesNoLeaf this)))
                          (drop i (fBoostWeights this)) ts),
                dacc n (take (length ts) (drop i (fBoostWeights this))))"
  using assms
proof (induction ts arbitrary: i m n)
  case Nil
  show ?case by (simp add: dacc_def)
next
  case (Cons t ts)
  have i: "i < length (fBoostWeights this)"
    using Cons.prems by simp
  have d: "drop i (fBoostWeights this) = fBoostWeights this ! i # drop (Suc i) (fBoostWeights this)"
    using i by (simp add: Cons_nth_drop_Suc)
  have "Suc i + length ts \<le> length (fBoostWeights this)"
    using Cons.prems by simp
  note ih = Cons.IH [OF Cons.prems(1) this]
  have r1: "map2 f (drop i (fBoostWeights this)) (t # ts) =
              f (fBoostWeights this ! i) t # map2 f (drop (Suc i) (fBoostWeights this)) ts" for f
    by (subst d) simp
  have r2: "take (Suc (length ts)) (drop i (fBoostWeights this)) =
              fBoostWeights this ! i # take (length ts) (drop (Suc i) (fBoostWeights this))"
    by (subst d) simp
  show ?case
    using Cons.prems(1) i by (simp add: vector_at_def ih r1 r2 dacc_def)
qed

lemma GetMvaValue_trees_unweighted:
  assumes "\<not> fUseWeightedTrees this"
  shows "GetMvaValue_trees this ev ts i (m, Fin n) =
           Inr (dacc m (map (\<lambda>t. CheckEvent t ev (fUseYesNoLeaf this)) ts),
                Fin (n + real (length ts)))"
  using assms
  by (induction ts arbitrary: i m n) (simp_all add: dacc_def add.assoc)

lemma GetMvaValue_normalizer:
  assumes "fUseWeightedTrees this \<longrightarrow> length (fForest this) \<le> length (fBoostWeights this)"
  shows "\<exists>m. GetMvaValue this ev = Inr (ddiv m (normalizer this))"
proof (cases "fUseWeightedTrees this")
  case True
  then show ?thesis
    using assms GetMvaValue_trees_weighted [of this 0 "fForest this" ev "Fin 0" "Fin 0"]
    by (auto simp add: GetMvaValue_def normalizer_def dsum_def)
next
  case False
  then show ?thesis
    using GetMvaValue_trees_unweighted [of this ev "fForest this" 0 "Fin 0" 0]
    by (auto simp add: GetMvaValue_def normalizer_def)
qed

lemma ddiv_zero_not_finite: "\<not> is_Fin (ddiv m (Fin 0))"
  by (cases m) simp_all

lemma GetMvaValue_closed:
  "(fUseWeightedTrees this \<and> length (fForest this) \<le> length (fBoostWeights this) \<longrightarrow>
      GetMvaValue this ev =
        Inr (ddiv (dsum (map2 (\<lambda>w t. dmul w (CheckEvent t ev (fUseYesNoLeaf this)))
                           (fBoostWeights this) (fForest this)))
                  (dsum (take (length (fForest this)) (fBoostWeights this))))) \<and>
   (\<not> fUseWeightedTrees this \<longrightarrow>
      GetMvaValue this ev =
        Inr (ddiv (dsum (map (\<lambda>t. CheckEvent t ev (fUseYesNoLeaf this)) (fForest this)))
                  (Fin (real (length (fForest this))))))"
  using GetMvaValue_trees_weighted [of this 0 "fForest this" ev "Fin 0" "Fin 0"]
        GetMvaValue_trees_unweighted [of this ev "fForest this" 0 "Fin 0" 0]
  by (simp add: GetMvaValue_def dsum_def)

lemma map2_dmul_scores:
  "map c ts = map Fin ss \<Longrightarrow>
     map2 (\<lambda>w t. dmul w (c t)) (map Fin ws) ts = map Fin (map2 (*) ws ss)"
proof (induction ws arbitrary: ts ss)
  case Nil
  show ?case by simp
next
  case (Cons w ws)
  show ?case
  proof (cases ts)
    case Nil
    with Cons.prems show ?thesis by simp
  next
    case ts: (Cons t ts')
    with Cons.prems obtain s ss' where ss: "ss = s # ss'" and s: "c t = Fin s"
      and r: "map c ts' = map Fin ss'"
      by (cases ss) auto
    show ?thesis
      using Cons.IH [OF r] by (simp add: ts ss s)
  qed
qed

lemma GetMvaValue_real_weighted:
  assumes sc: "map (\<lambda>t. CheckEvent t ev (fUseYesNoLeaf this)) (fForest this) = map Fin ss"
      and w: "fUseWeightedTrees this"
      and fw: "fBoostWeights this = map Fin ws"
      and len: "length ws = length (fForest this)"
      and nz: "sum_list ws \<noteq> 0"
  shows "GetMvaValue this ev = Inr (Fin (sum_list (map2 (*) ws ss) / sum_list ws))"
proof -
  have l: "length (fForest this) \<le> length (fBoostWeights this)"
    by (simp add: fw len [symmetric])
  have c: "GetMvaValue this ev =
            Inr (ddiv (dsum (map2 (\<lambda>w t. dmul w (CheckEvent t ev (fUseYesNoLeaf this)))
                           (fBoostWeights this) (fForest this)))
                  (dsum (take (length (fForest this)) (fBoostWeights this))))"
    using GetMvaValue_closed [of this ev] w l by blast
  have a: "map2 (\<lambda>w t. dmul w (CheckEvent t ev (fUseYesNoLeaf this))) (fBoostWeights this)
                 (fForest this) = map Fin (map2 (*) ws ss)"
    unfolding fw using sc by (rule map2_dmul_scores)
  have b: "take (length (fForest this)) (fBoostWeights this) = map Fin ws"
    by (simp add: fw len [symmetric])
  have "GetMvaValue this ev = Inr (ddiv (Fin (sum_list (map2 (*) ws ss))) (Fin (sum_list ws)))"
    by (simp only: c a b dsum_Fin)
  then show ?thesis
    using nz by simp
qed

lemma GetMvaValue_real_unweighted:
  assumes sc: "map (\<lambda>t. CheckEvent t ev (fUseYesNoLeaf this)) (fForest this) = map Fin ss"
      and u: "\<not> fUseWeightedTrees this"
      and ne: "fForest this \<noteq> []"
  shows "GetMvaValue this ev = Inr (Fin (sum_list ss / real (length ss)))"
proof -
  have "length (map (\<lambda>t. CheckEvent t ev (fUseYesNoLeaf this)) (fForest this)) =
          length (map Fin ss)"
    by (simp only: sc)
  then have len: "length (fForest this) = length ss"
    by simp
  have c: "GetMvaValue this ev =
            Inr (ddiv (dsum (map (\<lambda>t. CheckEvent t ev (fUseYesNoLeaf this)) (fForest this)))
                  (Fin (real (length (fForest this)))))"
    using GetMvaValue_closed [of this ev] u by blast
  have "GetMvaValue this ev = Inr (ddiv (Fin (sum_list ss)) (Fin (real (length ss))))"
    by (simp only: c sc dsum_Fin len)
  moreover have "length ss \<noteq> 0"
    using ne len by auto
  ultimately show ?thesis
    by simp
qed

section \<open>The loops of GetVariableImportance\<close>

lemma add_importance_all:
  "length rs = length v \<Longrightarrow>
     add_importance (pre @ v) (length pre) rs = Inr (pre @ map2 dadd v rs)"
proof (induction rs arbitrary: pre v)
  case Nil
  then show ?case by simp
next
  case (Cons r rs)
  then obtain x v' where v: "v = x # v'" and l: "length rs = length v'"
    by (cases v) auto
  have "add_importance ((pre @ [dadd x r]) @ v') (length (pre @ [dadd x r])) rs =
          Inr ((pre @ [dadd x r]) @ map2 dadd v' rs)"
    using l by (rule Cons.IH)
  then show ?case
    by (simp add: v)
qed

lemma map2_dadd_Fin: "map2 dadd (map Fin a) (map Fin r) = map Fin (map2 (+) a r)"
  by (simp add: zip_map_map case_prod_unfold)

lemma map_Fin_val: "\<forall>d\<in>set ds. is_Fin d \<Longrightarrow> map Fin (map val ds) = ds"
  by (induction ds) auto

lemma trees_loop_Fin:
  assumes "itree + n \<le> length forest"
      and "\<forall>t\<in>set forest. length (GetVariableImportance_dt t) = length a \<and>
             (\<forall>d\<in>set (GetVariableImportance_dt t). is_Fin d)"
  shows "GetVariableImportance_trees forest n itree (map Fin a) =
           Inr (map Fin (foldl (map2 (+)) a
                  (map (\<lambda>t. map val (GetVariableImportance_dt t))
                     (take n (drop itree forest)))))"
  using assms
proof (induction n arbitrary: itree a)
  case 0
  show ?case by simp
next
  case (Suc n)
  let ?t = "forest ! itree"
  define r where "r = map val (GetVariableImportance_dt ?t)"
  have i: "itree < length forest" using Suc.prems(1) by simp
  then have tin: "?t \<in> set forest" by simp
  have fin: "GetVariableImportance_dt ?t = map Fin r"
    unfolding r_def using Suc.prems(2) tin by (intro map_Fin_val [symmetric]) blast
  have len: "length r = length a"
    unfolding r_def using Suc.prems(2) tin by auto
  have "add_importance ([] @ map Fin a) (length ([] :: Double_t list)) (map Fin r) =
          Inr ([] @ map2 dadd (map Fin a) (map Fin r))"
    by (rule add_importance_all) (simp add: len)
  then have step: "add_importance (map Fin a) 0 (GetVariableImportance_dt ?t) =
          Inr (map Fin (map2 (+) a r))"
    by (simp add: fin map2_dadd_Fin)
  have p1: "Suc itree + n \<le> length forest" using Suc.prems(1) by simp
  have p2: "\<forall>t\<in>set forest. length (GetVariableImportance_dt t) = length (map2 (+) a r) \<and>
             (\<forall>d\<in>set (GetVariableImportance_dt t). is_Fin d)"
    using Suc.prems(2) len by auto
  have tk: "take (Suc n) (drop itree forest) = ?t # take n (drop (Suc itree) forest)"
    using i by (simp add: Cons_nth_drop_Suc [symmetric])
  have "GetVariableImportance_trees forest (Suc n) itree (map Fin a) =
          GetVariableImportance_trees forest n (Suc itree) (map Fin (map2 (+) a r))"
    using i by (simp add: vector_at_def step)
  also have "\<dots> = Inr (map Fin (foldl (map2 (+)) (map2 (+) a r)
                  (map (\<lambda>t. map val (GetVariableImportance_dt t))
                     (take n (drop (Suc itree) forest)))))"
    by (rule Suc.IH [OF p1 p2])
  also have "foldl (map2 (+)) (map2 (+) a r)
                  (map (\<lambda>t. map val (GetVariableImportance_dt t))
                     (take n (drop (Suc itree) forest))) =
             foldl (map2 (+)) a
                  (map (\<lambda>t. map val (GetVariableImportance_dt t))
                     (take (Suc n) (drop itree forest)))"
    unfolding tk r_def by simp
  finally show ?case .
qed

lemma foldl_vadd_length:
  "\<forall>r\<in>set rs. length r = length a \<Longrightarrow> length (foldl (map2 (+)) a rs) = length (a :: real list)"
  by (induction rs arbitrary: a) simp_all

lemma foldl_vadd_nth:
  "\<forall>r\<in>set rs. length r = length a \<Longrightarrow> i < length a \<Longrightarrow>
     foldl (map2 (+)) a rs ! i = (a ! i :: real) + (\<Sum>r\<leftarrow>rs. r ! i)"
proof (induction rs arbitrary: a)
  case Nil
  show ?case by simp
next
  case (Cons r rs)
  have l: "length r = length a" using Cons.prems(1) by simp
  have "foldl (map2 (+)) (map2 (+) a r) rs ! i = map2 (+) a r ! i + (\<Sum>r\<leftarrow>rs. r ! i)"
    using Cons.prems l by (intro Cons.IH) simp_all
  then show ?case
    using Cons.prems(2) l by simp
qed

lemma elem_le_sum_list:
  fixes f :: "'a \<Rightarrow> real"
  shows "\<forall>x\<in>set xs. 0 \<le> f x \<Longrightarrow> y \<in> set xs \<Longrightarrow> f y \<le> (\<Sum>x\<leftarrow>xs. f x)"
proof (induction xs)
  case Nil
  then show ?case by simp
next
  case (Cons a xs)
  have nn: "0 \<le> (\<Sum>x\<leftarrow>xs. f x)"
    using Cons.prems(1) by (intro sum_list_nonneg) auto
  show ?case
  proof (cases "y = a")
    case True
    with nn show ?thesis by simp
  next
    case False
    then have "f y \<le> (\<Sum>x\<leftarrow>xs. f x)"
      using Cons by simp
    moreover have "0 \<le> f a" using Cons.prems(1) by simp
    ultimately show ?thesis by simp
  qed
qed

lemma importance_sum_length: "length (importance_sum n forest) = n"
  by (simp add: importance_sum_def)

lemma importance_sum_nth:
  "i < n \<Longrightarrow> importance_sum n forest ! i =
     (\<Sum>t\<leftarrow>forest. val (GetVariableImportance_dt t ! i))"
  by (simp add: importance_sum_def)

lemma importance_sum_nonneg:
  assumes sh: "\<forall>t\<in>set forest. length (GetVariableImportance_dt t) = n \<and>
             (\<forall>d\<in>set (GetVariableImportance_dt t). finite_nonneg d)"
  shows "\<forall>x\<in>set (importance_sum n forest). 0 \<le> x"
proof -
  have "0 \<le> importance_sum n forest ! i" if i: "i < n" for i
  proof -
    have "0 \<le> val (GetVariableImportance_dt t ! i)" if "t \<in> set forest" for t
      using sh that i by (simp add: finite_nonneg_def)
    then show ?thesis
      unfolding importance_sum_nth [OF i] by (intro sum_list_nonneg) auto
  qed
  then show ?thesis
    by (auto simp: in_set_conv_nth importance_sum_length)
qed

lemma importance_total_pos:
  assumes sh: "\<forall>t\<in>set forest. length (GetVariableImportance_dt t) = n \<and>
             (\<forall>d\<in>set (GetVariableImportance_dt t). finite_nonneg d)"
      and nz: "\<exists>t\<in>set forest. \<exists>d\<in>set (GetVariableImportance_dt t). d \<noteq> Fin 0"
  shows "0 < sum_list (importance_sum n forest)"
proof -
  from nz obtain t d where t: "t \<in> set forest" and d: "d \<in> set (GetVariableImportance_dt t)"
    and d0: "d \<noteq> Fin 0" by blast
  from d obtain i where i: "i < length (GetVariableImportance_dt t)"
    and di: "GetVariableImportance_dt t ! i = d"
    by (auto simp: in_set_conv_nth)
  have n: "i < n" using i sh t by simp
  have fd: "finite_nonneg d" using sh t d by blast
  have dpos: "0 < val d"
    using fd d0 by (cases d) (simp_all add: finite_nonneg_def)
  have "\<forall>t\<in>set forest. 0 \<le> val (GetVariableImportance_dt t ! i)"
    using sh n by (simp add: finite_nonneg_def)
  then have "val (GetVariableImportance_dt t ! i) \<le> (\<Sum>t\<leftarrow>forest. val (GetVariableImportance_dt t ! i))"
    using t by (rule elem_le_sum_list)
  then have "0 < importance_sum n forest ! i"
    using dpos di n by (simp add: importance_sum_nth)
  moreover have "importance_sum n forest ! i \<in> set (importance_sum n forest)"
    using n by (simp add: importance_sum_length)
  moreover have "importance_sum n forest ! i \<le> (\<Sum>x\<leftarrow>importance_sum n forest. x)"
    using importance_sum_nonneg [OF sh] calculation(2)
    by (intro elem_le_sum_list [of _ "\<lambda>x. x"]) auto
  ultimately show ?thesis by simp
qed

lemma sum_list_nth_add:
  fixes a s :: "real list"
  assumes "length a = n" "length s = n"
  shows "(\<Sum>i\<leftarrow>[0..<n]. a ! i + s ! i) = sum_list a + sum_list s"
proof -
  have "(\<Sum>i\<leftarrow>[0..<n]. a ! i + s ! i) = (\<Sum>i\<leftarrow>[0..<n]. a ! i) + (\<Sum>i\<leftarrow>[0..<n]. s ! i)"
    by (rule sum_list_addf)
  moreover have "map ((!) a) [0..<n] = a" using assms(1) map_nth by blast
  moreover have "map ((!) s) [0..<n] = s" using assms(2) map_nth by blast
  ultimately show ?thesis by simp
qed

lemma GetVariableImportance_finite:
  fixes this :: MethodBDT
  defines "n \<equiv> GetNvar this"
  defines "S \<equiv> importance_sum (GetNvar this) (fForest this)"
  assumes rz: "resize n (fVariableImportance this) = map Fin a"
      and la: "length a = n"
      and tr: "fNTrees this = int (length (fForest this))"
      and sh: "\<forall>t\<in>set (fForest this). length (GetVariableImportance_dt t) = n \<and>
                 (\<forall>d\<in>set (GetVariableImportance_dt t). finite_nonneg d)"
      and nz: "sum_list a + sum_list S \<noteq> 0"
  shows "GetVariableImportance this =
           Inr (map (\<lambda>i. Fin ((a ! i + S ! i) / (sum_list a + sum_list S))) [0..<n],
                this\<lparr>fVariableImportance :=
                  map (\<lambda>i. Fin ((a ! i + S ! i) / (sum_list a + sum_list S))) [0..<n]\<rparr>)"
proof -
  let ?rs = "map (\<lambda>t. map val (GetVariableImportance_dt t)) (fForest this)"
  let ?acc = "foldl (map2 (+)) a ?rs"
  have sh': "\<forall>t\<in>set (fForest this). length (GetVariableImportance_dt t) = length a \<and>
                 (\<forall>d\<in>set (GetVariableImportance_dt t). is_Fin d)"
    using sh la by (auto simp: finite_nonneg_def)
  have loop: "GetVariableImportance_trees (fForest this) (nat (fNTrees this)) 0 (map Fin a) =
                Inr (map Fin ?acc)"
    using trees_loop_Fin [of 0 "length (fForest this)" "fForest this" a] sh'
    by (simp add: tr)
  have lr: "\<forall>r\<in>set ?rs. length r = length a"
    using sh la by auto
  have lacc: "length ?acc = n"
    using foldl_vadd_length [OF lr] la by simp
  have nth: "?acc ! i = a ! i + S ! i" if i: "i < n" for i
  proof -
    have "?acc ! i = a ! i + (\<Sum>r\<leftarrow>?rs. r ! i)"
      using lr i la by (intro foldl_vadd_nth) simp_all
    also have "(\<Sum>r\<leftarrow>?rs. r ! i) = (\<Sum>t\<leftarrow>fForest this. map val (GetVariableImportance_dt t) ! i)"
      by (simp add: comp_def)
    also have "\<dots> = (\<Sum>t\<leftarrow>fForest this. val (GetVariableImportance_dt t ! i))"
      using sh i by (intro arg_cong [where f = sum_list] map_cong refl nth_map) simp
    also have "\<dots> = S ! i"
      using i by (simp add: S_def n_def importance_sum_nth)
    finally show ?thesis .
  qed
  have acc: "?acc = map (\<lambda>i. a ! i + S ! i) [0..<n]"
    using lacc nth by (intro nth_equalityI) simp_all
  have lS: "length S = n"
    by (simp add: S_def n_def importance_sum_length)
  have tot: "sum_list ?acc = sum_list a + sum_list S"
    unfolding acc using la lS by (rule sum_list_nth_add)
  have dv: "map (\<lambda>x. ddiv x (Fin (sum_list a + sum_list S))) (map Fin ?acc) =
              map (\<lambda>i. Fin ((a ! i + S ! i) / (sum_list a + sum_list S))) [0..<n]"
    unfolding acc using nz by (simp add: comp_def)
  have ds: "dsum (map Fin ?acc) = Fin (sum_list a + sum_list S)"
    by (simp only: dsum_Fin tot)
  show ?thesis
    unfolding GetVariableImportance_def
    by (simp only: rz [unfolded n_def] loop sum.case Let_def ds dv [unfolded n_def] n_def)
qed

text \<open>
  From a new object, whose vector \<open>fVariableImportance\<close> is empty, a call returns
  the element-wise sum of the trees' vectors divided by its total. A second call on the
  object as the first call left it returns the same vector: it starts from the first
  result, which is proportional to what it adds.
\<close>

lemma sum_list_zeros: "sum_list (replicate n (0::real)) = 0"
  by (induction n) simp_all

lemma renormalise_fixed:
  fixes T x :: real
  assumes "0 < T"
  shows "(x / T + x) / (1 + T) = x / T"
proof -
  have "x / T + x = (x / T) * (1 + T)"
    using assms by (simp add: distrib_left)
  moreover have "1 + T \<noteq> 0" using assms by simp
  ultimately show ?thesis by simp
qed

lemma resize_fresh: "resize n [] = map Fin (replicate n 0)"
  by (simp add: resize_def)

lemma resize_full: "length v = n \<Longrightarrow> resize n v = v"
  by (simp add: resize_def)

lemma GetVariableImportance_fresh:
  assumes fresh: "fVariableImportance this = []"
      and tr: "fNTrees this = int (length (fForest this))"
      and sh: "\<forall>t\<in>set (fForest this). length (GetVariableImportance_dt t) = GetNvar this \<and>
                 (\<forall>d\<in>set (GetVariableImportance_dt t). finite_nonneg d)"
      and nz: "\<exists>t\<in>set (fForest this). \<exists>d\<in>set (GetVariableImportance_dt t). d \<noteq> Fin 0"
  shows "GetVariableImportance this =
           Inr (map (\<lambda>x. Fin (x / sum_list (importance_sum (GetNvar this) (fForest this))))
                  (importance_sum (GetNvar this) (fForest this)),
                this\<lparr>fVariableImportance :=
                  map (\<lambda>x. Fin (x / sum_list (importance_sum (GetNvar this) (fForest this))))
                  (importance_sum (GetNvar this) (fForest this))\<rparr>)"
proof -
  let ?n = "GetNvar this"
  let ?S = "importance_sum ?n (fForest this)"
  let ?T = "sum_list ?S"
  have T: "0 < ?T" using sh nz by (rule importance_total_pos)
  have rz: "resize ?n (fVariableImportance this) = map Fin (replicate ?n 0)"
    by (simp only: fresh resize_fresh)
  have nz': "sum_list (replicate ?n (0::real)) + ?T \<noteq> 0"
    using T by (simp add: sum_list_zeros)
  have eq: "map (\<lambda>i. Fin ((replicate ?n (0::real) ! i + ?S ! i) /
                    (sum_list (replicate ?n (0::real)) + ?T))) [0..<?n] =
            map (\<lambda>x. Fin (x / ?T)) ?S"
    by (intro nth_equalityI) (simp_all add: importance_sum_length sum_list_zeros)
  show ?thesis
    using GetVariableImportance_finite [OF rz _ tr sh nz'] by (simp only: eq length_replicate)
qed

lemma GetVariableImportance_fresh_twice:
  assumes fresh: "fVariableImportance this = []"
      and tr: "fNTrees this = int (length (fForest this))"
      and sh: "\<forall>t\<in>set (fForest this). length (GetVariableImportance_dt t) = GetNvar this \<and>
                 (\<forall>d\<in>set (GetVariableImportance_dt t). finite_nonneg d)"
      and nz: "\<exists>t\<in>set (fForest this). \<exists>d\<in>set (GetVariableImportance_dt t). d \<noteq> Fin 0"
      and first: "GetVariableImportance this = Inr (v, this')"
  shows "GetVariableImportance this' = Inr (v, this')"
proof -
  let ?n = "GetNvar this"
  let ?S = "importance_sum ?n (fForest this)"
  let ?T = "sum_list ?S"
  let ?a = "map (\<lambda>x. x / ?T) ?S"
  have T: "0 < ?T" using sh nz by (rule importance_total_pos)
  have ab: "map (\<lambda>x. Fin (x / ?T)) ?S = map Fin ?a"
    by simp
  have "Inr (v, this') =
          (Inr (map Fin ?a, this\<lparr>fVariableImportance := map Fin ?a\<rparr>)
            :: error + Double_t list \<times> MethodBDT)"
    using first GetVariableImportance_fresh [OF fresh tr sh nz] by (simp only: ab)
  then have v: "v = map Fin ?a" and this': "this' = this\<lparr>fVariableImportance := map Fin ?a\<rparr>"
    by blast+
  have la: "length ?a = GetNvar this'"
    by (simp add: this' importance_sum_length)
  have rz: "resize (GetNvar this') (fVariableImportance this') = map Fin ?a"
    by (simp add: this' resize_full importance_sum_length)
  have tr': "fNTrees this' = int (length (fForest this'))"
    using tr by (simp add: this')
  have sh': "\<forall>t\<in>set (fForest this'). length (GetVariableImportance_dt t) = GetNvar this' \<and>
                 (\<forall>d\<in>set (GetVariableImportance_dt t). finite_nonneg d)"
    using sh by (simp add: this')
  have S': "importance_sum (GetNvar this') (fForest this') = ?S"
    by (simp add: this')
  have one: "sum_list ?a = 1"
    using sum_list_scale [of "\<lambda>x. x" 1 ?T ?S] T by simp
  have nz': "sum_list ?a + sum_list (importance_sum (GetNvar this') (fForest this')) \<noteq> 0"
    unfolding S' one using T by simp
  have eq: "map (\<lambda>i. Fin ((?a ! i + ?S ! i) / (sum_list ?a + ?T))) [0..<?n] = map Fin ?a"
  proof (intro nth_equalityI)
    show "length (map (\<lambda>i. Fin ((?a ! i + ?S ! i) / (sum_list ?a + ?T))) [0..<?n]) =
            length (map Fin ?a)"
      by (simp add: importance_sum_length)
  next
    fix i
    assume "i < length (map (\<lambda>i. Fin ((?a ! i + ?S ! i) / (sum_list ?a + ?T))) [0..<?n])"
    then have i: "i < ?n" by simp
    have "(?S ! i / ?T + ?S ! i) / (1 + ?T) = ?S ! i / ?T"
      using T by (rule renormalise_fixed)
    then show "map (\<lambda>i. Fin ((?a ! i + ?S ! i) / (sum_list ?a + ?T))) [0..<?n] ! i =
            map Fin ?a ! i"
      using i by (simp add: one importance_sum_length)
  qed
  have n': "GetNvar this' = ?n" by (simp add: this')
  have f': "fForest this' = fForest this" by (simp add: this')
  have upd: "this'\<lparr>fVariableImportance := map Fin ?a\<rparr> = this'"
    by (simp add: this')
  have "GetVariableImportance this' =
          Inr (map (\<lambda>i. Fin ((?a ! i + ?S ! i) / (sum_list ?a + ?T))) [0..<?n],
               this'\<lparr>fVariableImportance :=
                 map (\<lambda>i. Fin ((?a ! i + ?S ! i) / (sum_list ?a + ?T))) [0..<?n]\<rparr>)"
    using GetVariableImportance_finite [OF rz la tr' sh' nz'] unfolding n' f' .
  then show ?thesis
    by (simp only: eq upd v)
qed

section \<open>The loops of writing and reading\<close>
















section \<open>Claims about AdaBoost\<close>

text \<open>
  Claim C1, as amended. For every non-empty sample whose weights are finite and
  non-negative, whose total weight is positive and in which the misclassified weight is
  smaller than the total weight (the error fraction is below 1), the sum of the weights
  after one AdaBoost round equals the sum of the weights before the round, in exact
  arithmetic.
\<close>

theorem AdaBoost_conserves_weight:
  assumes "es \<noteq> []"
      and "\<forall>e\<in>set es. finite_nonneg (GetWeight e)"
      and "dgt (dsum (weights es)) (Fin 0)"
      and "dgt (dsum (weights es))
             (dsum (weights (filter (misclassified (fUseYesNoLeaf this) dt) es)))"
  shows "dsum (weights (fst (AdaBoost this es dt))) = dsum (weights es)"
proof -
  let ?mis = "misclassified (fUseYesNoLeaf this) dt"
  let ?w = "\<lambda>e. val (GetWeight e)"
  let ?sw = "sum_list (map ?w es)"
  let ?sf = "sum_list (map ?w (filter ?mis es))"
  have fin': "\<forall>e\<in>set (filter ?mis es). finite_nonneg (GetWeight e)"
    using assms(2) by simp
  have s1: "dsum (weights es) = Fin ?sw"
    by (simp only: weights_finite [OF assms(2)] dsum_Fin)
  have s2: "dsum (weights (filter ?mis es)) = Fin ?sf"
    by (simp only: weights_finite [OF fin'] dsum_Fin)
  have pos: "0 < ?sw" using assms(3) by (simp add: s1)
  have lt: "?sf < ?sw" using assms(4) by (simp add: s1 s2)
  note A = AdaBoost_finite [OF assms(2) pos lt]
  have "weights (fst (AdaBoost this es dt)) =
          map Fin (map (\<lambda>e. ?w e * (if ?mis e then (if 0 < ?sf / ?sw then (1 - ?sf / ?sw) / (?sf / ?sw) else 1000) else 1) * ?sw /
             sum_list (map (\<lambda>e. ?w e * (if ?mis e then (if 0 < ?sf / ?sw then (1 - ?sf / ?sw) / (?sf / ?sw) else 1000) else 1)) es)) es)"
    by (simp add: A(1) weights_def GetWeight_SetWeight comp_def)
  then have "dsum (weights (fst (AdaBoost this es dt))) =
     Fin (sum_list (map (\<lambda>e. ?w e * (if ?mis e then (if 0 < ?sf / ?sw then (1 - ?sf / ?sw) / (?sf / ?sw) else 1000) else 1)) es) * ?sw /
             sum_list (map (\<lambda>e. ?w e * (if ?mis e then (if 0 < ?sf / ?sw then (1 - ?sf / ?sw) / (?sf / ?sw) else 1000) else 1)) es))"
    by (simp only: dsum_Fin sum_list_scale)
  also have "\<dots> = Fin ?sw"
    using A(2) by simp
  finally show ?thesis by (simp only: s1)
qed

text \<open>The round of the spec's example: \<open>sumw = 10\<close>, \<open>sumwfalse = 2\<close>.\<close>

theorem AdaBoost_conserves_weight_witness:
  "dsum (weights (fst (AdaBoost untrained [background 2, signal 8] always_signal)))
     = dsum (weights [background 2, signal 8])"
  using AdaBoost_conserves_weight [of "[background 2, signal 8]" untrained always_signal]
  by (simp add: dsum_def dacc_def weights_def background_def signal_def untrained_def
      always_signal_def misclassified_def finite_nonneg_def)

text \<open>
  Claim C1 as stated fails when every event is misclassified: then \<open>err = 1\<close>,
  \<open>boostWeight = 0\<close>, \<open>newSumw = 0\<close>, and the renormalisation \<open>0 * sumw / 0\<close> leaves
  a NaN in every weight.
\<close>

theorem AdaBoost_all_misclassified_counterexample:
  "[background 1] \<noteq> [] \<and> dgt (dsum (weights [background 1])) (Fin 0) \<and>
   weights (fst (AdaBoost untrained [background 1] always_signal)) = [NaN] \<and>
   dsum (weights (fst (AdaBoost untrained [background 1] always_signal)))
     \<noteq> dsum (weights [background 1])"
  by (simp add: AdaBoost_def AdaBoost_boostWeight_def AdaBoost_renormalise_def dsub_def
      dsum_def dacc_def weights_def background_def untrained_def always_signal_def
      SetWeight_def Let_def)

text \<open>
  Claim C2, as amended. For every sample and tree, \<open>AdaBoost\<close> computes
  \<open>err = sumwfalse / sumw\<close>, takes \<open>boostWeight = (1 - err) / err\<close> when \<open>err > 0\<close>
  and 1000 otherwise, multiplies the weight of every misclassified event by
  \<open>boostWeight\<close>, leaves the other weights as they are, rescales every weight by
  \<open>sumw / newSumw\<close> and returns \<open>log(boostWeight)\<close>. In exact arithmetic, when the
  weights are finite and non-negative, the total weight is positive and
  \<open>sumwfalse = 0\<close>, the value returned is \<open>ln 1000\<close> and no event changes.
\<close>

theorem AdaBoost_postcondition:
  "AdaBoost this es dt =
     (let yn = fUseYesNoLeaf this;
          sumw = dsum (weights es);
          sumwfalse = dsum (weights (filter (misclassified yn dt) es));
          err = ddiv sumwfalse sumw;
          boostWeight = (if dgt err (Fin 0) then ddiv (dsub (Fin 1) err) err else Fin 1000);
          es' = map (boosted boostWeight yn dt) es;
          newSumw = dsum (weights es')
      in (map (\<lambda>e. SetWeight (ddiv (dmul (GetWeight e) sumw) newSumw) e) es',
          dlog boostWeight,
          this\<lparr>fBoostWeight := boostWeight, fErrorFraction := err\<rparr>)) \<and>
   ((\<forall>e\<in>set es. finite_nonneg (GetWeight e)) \<and> dgt (dsum (weights es)) (Fin 0) \<and>
    dsum (weights (filter (misclassified (fUseYesNoLeaf this) dt) es)) = Fin 0 \<longrightarrow>
      fst (AdaBoost this es dt) = es \<and> fst (snd (AdaBoost this es dt)) = Fin (ln 1000))"
proof (intro conjI impI)
  show "AdaBoost this es dt =
     (let yn = fUseYesNoLeaf this;
          sumw = dsum (weights es);
          sumwfalse = dsum (weights (filter (misclassified yn dt) es));
          err = ddiv sumwfalse sumw;
          boostWeight = (if dgt err (Fin 0) then ddiv (dsub (Fin 1) err) err else Fin 1000);
          es' = map (boosted boostWeight yn dt) es;
          newSumw = dsum (weights es')
      in (map (\<lambda>e. SetWeight (ddiv (dmul (GetWeight e) sumw) newSumw) e) es',
          dlog boostWeight,
          this\<lparr>fBoostWeight := boostWeight, fErrorFraction := err\<rparr>))"
    by (simp only: AdaBoost_eq AdaBoost_boostWeight_def AdaBoost_renormalise_def)
next
  assume a: "(\<forall>e\<in>set es. finite_nonneg (GetWeight e)) \<and> dgt (dsum (weights es)) (Fin 0) \<and>
    dsum (weights (filter (misclassified (fUseYesNoLeaf this) dt) es)) = Fin 0"
  then show "fst (AdaBoost this es dt) = es"
    using AdaBoost_zero_error(1) by blast
  from a show "fst (snd (AdaBoost this es dt)) = Fin (ln 1000)"
    using AdaBoost_zero_error(2) by blast
qed

text \<open>
  The round of the spec's example (\<open>sumw = 10\<close>, \<open>sumwfalse = 2\<close>, \<open>err = 0.2\<close>,
  \<open>boostWeight = 4\<close>), and a round without a misclassified event.
\<close>

theorem AdaBoost_postcondition_witness:
  "fst (snd (AdaBoost untrained [background 2, signal 8] always_signal)) = Fin (ln 4) \<and>
   fErrorFraction (snd (snd (AdaBoost untrained [background 2, signal 8] always_signal)))
     = Fin (1/5) \<and>
   weights (fst (AdaBoost untrained [background 2, signal 8] always_signal))
     = [Fin 5, Fin 5] \<and>
   fst (AdaBoost untrained [signal 3, signal 4] always_signal) = [signal 3, signal 4] \<and>
   fst (snd (AdaBoost untrained [signal 3, signal 4] always_signal)) = Fin (ln 1000)"
  using AdaBoost_postcondition [of untrained "[background 2, signal 8]" always_signal]
        AdaBoost_postcondition [of untrained "[signal 3, signal 4]" always_signal]
  by (simp add: Let_def dsum_def dacc_def weights_def background_def signal_def untrained_def
      always_signal_def misclassified_def finite_nonneg_def boosted_def SetWeight_def
      dsub_def)

text \<open>
  Claim C2 as stated fails in its last part for a sample of total weight zero, where
  \<open>sumw / newSumw\<close> is \<open>0/0\<close>, and for a sample in which weights of both signs cancel
  in \<open>sumwfalse\<close>, where the misclassified weights are multiplied by 1000.
\<close>

theorem AdaBoost_zero_error_counterexample:
  "dsum (weights (filter (misclassified (fUseYesNoLeaf untrained) always_signal) [signal 0]))
     = Fin 0 \<and>
   fst (snd (AdaBoost untrained [signal 0] always_signal)) = Fin (ln 1000) \<and>
   weights (fst (AdaBoost untrained [signal 0] always_signal)) = [NaN] \<and>
   fst (AdaBoost untrained [signal 0] always_signal) \<noteq> [signal 0] \<and>
   dsum (weights (filter (misclassified (fUseYesNoLeaf untrained) always_signal)
           [background 1, background (- 1), signal 1])) = Fin 0 \<and>
   weights (fst (AdaBoost untrained [background 1, background (- 1), signal 1] always_signal))
     = [Fin 1000, Fin (- 1000), Fin 1] \<and>
   fst (AdaBoost untrained [background 1, background (- 1), signal 1] always_signal)
     \<noteq> [background 1, background (- 1), signal 1]"
  by (simp add: AdaBoost_def AdaBoost_boostWeight_def AdaBoost_renormalise_def dsub_def
      dsum_def dacc_def weights_def background_def signal_def untrained_def
      always_signal_def misclassified_def SetWeight_def Let_def)

section \<open>Claims about Bagging\<close>

text \<open>
  Claim C4, as amended. \<open>Bagging\<close> always returns 1. For every non-empty sample of
  size \<open>N\<close> for which the raw draws do not sum to zero, the weight of each event after
  the round is its draw times \<open>N\<close> divided by the sum of the draws, and the weights sum
  to \<open>N\<close>.
\<close>

theorem Bagging_postcondition:
  "snd (Bagging R es iTree) = Fin 1 \<and>
   (es \<noteq> [] \<and> sum_list (Rndm_sequence R (TRandom_new R iTree) (length es)) \<noteq> 0 \<longrightarrow>
      weights (fst (Bagging R es iTree)) =
        map (\<lambda>r. Fin (r * real (length es) /
                       sum_list (Rndm_sequence R (TRandom_new R iTree) (length es))))
          (Rndm_sequence R (TRandom_new R iTree) (length es)) \<and>
      dsum (weights (fst (Bagging R es iTree))) = Fin (real (length es)))"
proof (intro conjI impI)
  show "snd (Bagging R es iTree) = Fin 1" by (rule Bagging_returns)
next
  let ?ds = "Rndm_sequence R (TRandom_new R iTree) (length es)"
  assume a: "es \<noteq> [] \<and> sum_list ?ds \<noteq> 0"
  show w: "weights (fst (Bagging R es iTree)) =
        map (\<lambda>r. Fin (r * real (length es) / sum_list ?ds)) ?ds"
    using a by (simp add: Bagging_weights)
  have "dsum (weights (fst (Bagging R es iTree))) =
          Fin (sum_list (map (\<lambda>r. r * real (length es) / sum_list ?ds) ?ds))"
    using dsum_Fin [of "map (\<lambda>r. r * real (length es) / sum_list ?ds) ?ds"]
    by (simp add: w comp_def)
  also have "sum_list (map (\<lambda>r. r * real (length es) / sum_list ?ds) ?ds) =
               sum_list (map (\<lambda>r. r) ?ds) * real (length es) / sum_list ?ds"
    by (rule sum_list_scale)
  also have "\<dots> = real (length es)"
    using a by simp
  finally show "dsum (weights (fst (Bagging R es iTree))) = Fin (real (length es))" .
qed

theorem Bagging_postcondition_witness:
  "snd (Bagging counter_generator [signal 5, background 7] 1) = Fin 1 \<and>
   weights (fst (Bagging counter_generator [signal 5, background 7] 1)) = [Fin (2/3), Fin (4/3)] \<and>
   dsum (weights (fst (Bagging counter_generator [signal 5, background 7] 1))) = Fin 2"
  using Bagging_postcondition [of counter_generator "[signal 5, background 7]" 1]
  by (simp add: counter_generator_def numeral_2_eq_2 dsum_def dacc_def)

text \<open>
  Claim C4 as stated fails when all the draws are 0, a value of the range \<open>[0,1)\<close>
  that the spec gives: the sum of the draws is 0 and every weight becomes \<open>0 * N / 0\<close>.
\<close>

theorem Bagging_zero_draws_counterexample:
  "Rndm_sequence counter_generator (TRandom_new counter_generator 0) (length [signal 5]) = [0] \<and>
   Rndm_range 0 \<and>
   weights (fst (Bagging counter_generator [signal 5] 0)) = [NaN] \<and>
   dsum (weights (fst (Bagging counter_generator [signal 5] 0))) \<noteq> Fin (real (length [signal 5]))"
  by (simp add: Bagging_def counter_generator_def Rndm_range_def weights_def dsum_def dacc_def
      SetWeight_def signal_def Let_def)

text \<open>
  Claim C9. Two Bagging rounds with the same round index over samples of the same size
  assign the same sequence of weights, whatever the events and their weights were.
\<close>

theorem Bagging_deterministic:
  "length es = length es' \<Longrightarrow>
     weights (fst (Bagging R es iTree)) = weights (fst (Bagging R es' iTree))"
  by (simp add: Bagging_weights)

theorem Bagging_deterministic_witness:
  "weights (fst (Bagging counter_generator [signal 5, background 7] 1)) =
   weights (fst (Bagging counter_generator [background 1, background 2] 1))"
  using Bagging_deterministic [of "[signal 5, background 7]" "[background 1, background 2]"
          counter_generator 1]
  by simp

section \<open>Non-negative weights\<close>

text \<open>
  Claim C8, as amended. In exact arithmetic: when all weights of a non-empty sample are
  finite and non-negative, the total weight is positive and the misclassified weight is
  smaller than the total weight (\<open>0 \<le> err < 1\<close>), every weight is finite and
  non-negative after one AdaBoost round. When the draws of a Bagging round over a
  non-empty sample are in \<open>[0,1)\<close> and do not sum to zero, every weight is finite and
  non-negative after the round.
\<close>

theorem reweighting_keeps_weights_nonnegative:
  "(es \<noteq> [] \<and> (\<forall>e\<in>set es. finite_nonneg (GetWeight e)) \<and>
    dgt (dsum (weights es)) (Fin 0) \<and>
    dgt (dsum (weights es))
        (dsum (weights (filter (misclassified (fUseYesNoLeaf this) dt) es))) \<longrightarrow>
      (\<forall>e\<in>set (fst (AdaBoost this es dt)). finite_nonneg (GetWeight e))) \<and>
   (es \<noteq> [] \<and>
    (\<forall>r\<in>set (Rndm_sequence R (TRandom_new R iTree) (length es)). Rndm_range r) \<and>
    sum_list (Rndm_sequence R (TRandom_new R iTree) (length es)) \<noteq> 0 \<longrightarrow>
      (\<forall>d\<in>set (weights (fst (Bagging R es iTree))). finite_nonneg d))"
proof (intro conjI impI)
  let ?mis = "misclassified (fUseYesNoLeaf this) dt"
  let ?w = "\<lambda>e. val (GetWeight e)"
  let ?sw = "sum_list (map ?w es)"
  let ?sf = "sum_list (map ?w (filter ?mis es))"
  assume a: "es \<noteq> [] \<and> (\<forall>e\<in>set es. finite_nonneg (GetWeight e)) \<and>
    dgt (dsum (weights es)) (Fin 0) \<and>
    dgt (dsum (weights es)) (dsum (weights (filter ?mis es)))"
  then have fin: "\<forall>e\<in>set es. finite_nonneg (GetWeight e)" by blast
  have fin': "\<forall>e\<in>set (filter ?mis es). finite_nonneg (GetWeight e)"
    using fin by simp
  have s1: "dsum (weights es) = Fin ?sw"
    by (simp only: weights_finite [OF fin] dsum_Fin)
  have s2: "dsum (weights (filter ?mis es)) = Fin ?sf"
    by (simp only: weights_finite [OF fin'] dsum_Fin)
  have pos: "0 < ?sw" using a by (simp add: s1)
  have lt: "?sf < ?sw" using a by (simp add: s1 s2)
  note A = AdaBoost_finite [OF fin pos lt]
  have w0: "0 \<le> ?w e" if "e \<in> set es" for e
    using fin that by (simp add: finite_nonneg_def)
  show "\<forall>e\<in>set (fst (AdaBoost this es dt)). finite_nonneg (GetWeight e)"
    using A(2) A(3) pos w0
    by (auto simp add: A(1) GetWeight_SetWeight finite_nonneg_def)
next
  let ?ds = "Rndm_sequence R (TRandom_new R iTree) (length es)"
  assume a: "es \<noteq> [] \<and> (\<forall>r\<in>set ?ds. Rndm_range r) \<and> sum_list ?ds \<noteq> 0"
  have nn: "\<forall>r\<in>set ?ds. 0 \<le> r"
    using a by (simp add: Rndm_range_def)
  then have "0 \<le> sum_list ?ds"
    by (simp add: sum_list_nonneg)
  then have pos: "0 < sum_list ?ds"
    using a by simp
  show "\<forall>d\<in>set (weights (fst (Bagging R es iTree))). finite_nonneg d"
    using pos nn by (auto simp add: Bagging_weights finite_nonneg_def)
qed

theorem reweighting_keeps_weights_nonnegative_witness:
  "list_all finite_nonneg (weights (fst (AdaBoost untrained [background 1, signal 3] always_signal))) \<and>
   list_all finite_nonneg (weights (fst (Bagging counter_generator [signal 5, background 7] 2)))"
  using reweighting_keeps_weights_nonnegative
          [of "[background 1, signal 3]" untrained always_signal counter_generator 2]
        reweighting_keeps_weights_nonnegative
          [of "[signal 5, background 7]" untrained always_signal counter_generator 2]
  by (simp add: dsum_def dacc_def weights_def background_def signal_def untrained_def
      always_signal_def misclassified_def finite_nonneg_def counter_generator_def
      Rndm_range_def numeral_2_eq_2 list_all_iff)

text \<open>
  Claim C8 as stated fails for \<open>err = 1\<close>: when every event is misclassified, every
  weight is a NaN after the AdaBoost round.
\<close>

theorem AdaBoost_error_one_counterexample:
  "list_all finite_nonneg (weights [background 1, background 2]) \<and>
   fErrorFraction (snd (snd (AdaBoost untrained [background 1, background 2] always_signal)))
     = Fin 1 \<and>
   weights (fst (AdaBoost untrained [background 1, background 2] always_signal)) = [NaN, NaN] \<and>
   \<not> list_all finite_nonneg
       (weights (fst (AdaBoost untrained [background 1, background 2] always_signal)))"
  by (simp add: AdaBoost_def AdaBoost_boostWeight_def AdaBoost_renormalise_def dsub_def
      dsum_def dacc_def weights_def background_def untrained_def always_signal_def
      SetWeight_def Let_def finite_nonneg_def)

section \<open>Claims about the ensemble score\<close>

text \<open>
  Claim C5. In weighted mode \<open>GetMvaValue\<close> returns the sum of round weight times
  tree score divided by the sum of the round weights; in unweighted mode it returns the
  sum of the tree scores divided by the number of trees. The first two parts state this
  in the arithmetic of doubles for every forest, the last two in real numbers for finite
  scores and weights and a non-zero normalizer. \<open>GetMvaValue\<close> returns a value only:
  it changes neither the object nor the event.
\<close>

theorem GetMvaValue_aggregation:
  "(fUseWeightedTrees this \<and> length (fForest this) \<le> length (fBoostWeights this) \<longrightarrow>
      GetMvaValue this ev =
        Inr (ddiv (dsum (map2 (\<lambda>w t. dmul w (CheckEvent t ev (fUseYesNoLeaf this)))
                           (fBoostWeights this) (fForest this)))
                  (dsum (take (length (fForest this)) (fBoostWeights this))))) \<and>
   (\<not> fUseWeightedTrees this \<longrightarrow>
      GetMvaValue this ev =
        Inr (ddiv (dsum (map (\<lambda>t. CheckEvent t ev (fUseYesNoLeaf this)) (fForest this)))
                  (Fin (real (length (fForest this)))))) \<and>
   (map (\<lambda>t. CheckEvent t ev (fUseYesNoLeaf this)) (fForest this) = map Fin ss \<longrightarrow>
      (fUseWeightedTrees this \<and> fBoostWeights this = map Fin ws \<and>
       length ws = length (fForest this) \<and> sum_list ws \<noteq> 0 \<longrightarrow>
         GetMvaValue this ev = Inr (Fin (sum_list (map2 (*) ws ss) / sum_list ws))) \<and>
      (\<not> fUseWeightedTrees this \<and> fForest this \<noteq> [] \<longrightarrow>
         GetMvaValue this ev = Inr (Fin (sum_list ss / real (length ss)))))"
  using GetMvaValue_closed [of this ev]
        GetMvaValue_real_weighted [of ev this ss ws]
        GetMvaValue_real_unweighted [of ev this ss]
  by blast

theorem GetMvaValue_aggregation_witness:
  "GetMvaValue (two_trees True) (signal 1) = Inr (Fin (14/25)) \<and>
   GetMvaValue (two_trees False) (signal 1) = Inr (Fin (3/5))"
  using GetMvaValue_aggregation [of "two_trees True" "signal 1" "[4/5, 2/5]" "[2, 3]"]
        GetMvaValue_aggregation [of "two_trees False" "signal 1" "[4/5, 2/5]" "[2, 3]"]
  by (simp add: two_trees_def untrained_def always_signal_def dsum_def dacc_def)

text \<open>
  Claim C6, as amended. When the normalizer is zero (an empty forest, or weighted mode
  with round weights that sum to zero), \<open>GetMvaValue\<close> reports no error: it returns
  the quotient by zero, which is a NaN or an infinity and never a finite number.
\<close>

theorem GetMvaValue_zero_normalizer:
  assumes "fUseWeightedTrees this \<longrightarrow> length (fForest this) \<le> length (fBoostWeights this)"
      and "normalizer this = Fin 0"
  shows "\<exists>d. GetMvaValue this ev = Inr d \<and> \<not> is_Fin d"
  using GetMvaValue_normalizer [OF assms(1), of ev] assms(2) ddiv_zero_not_finite
  by auto

theorem GetMvaValue_zero_normalizer_witness:
  "normalizer cancelling = Fin 0 \<and> GetMvaValue cancelling (signal 1) = Inr PInf"
proof -
  have n: "normalizer cancelling = Fin 0"
    by (simp add: cancelling_def two_trees_def untrained_def normalizer_def dsum_def dacc_def)
  have l: "fUseWeightedTrees cancelling \<longrightarrow>
             length (fForest cancelling) \<le> length (fBoostWeights cancelling)"
    by (simp add: cancelling_def two_trees_def untrained_def)
  have "GetMvaValue cancelling (signal 1) = Inr PInf"
    using GetMvaValue_zero_normalizer [OF l n, of "signal 1"]
    by (simp add: GetMvaValue_def cancelling_def two_trees_def untrained_def always_signal_def
        vector_at_def)
  with n show ?thesis by simp
qed

text \<open>
  Claim C6 as stated fails: on the empty forest \<open>GetMvaValue\<close> returns the NaN of
  \<open>0/0\<close> as its result and reports nothing.
\<close>

theorem GetMvaValue_empty_forest_counterexample:
  "fForest untrained = [] \<and> normalizer untrained = Fin 0 \<and>
   GetMvaValue untrained (signal 1) = Inr NaN"
  by (simp add: GetMvaValue_def untrained_def normalizer_def dsum_def dacc_def)

section \<open>Claims about the variable importance\<close>



text \<open>
  Claim C10. \<open>GetVariableImportance\<close> adds to the member vector without resetting
  it, so repeated calls can disagree. An object answers for a first forest, with result
  \<open>[1, 0]\<close>; its forest is then replaced; two successive calls on the new, unchanged
  forest return \<open>[2/3, 1/3]\<close> and then \<open>[5/9, 4/9]\<close>. (By
  \<open>GetVariableImportance_fresh_twice\<close> the calls agree, in exact arithmetic, when the
  first of them starts from the empty vector of a new object.)
\<close>

theorem GetVariableImportance_not_idempotent:
  "GetVariableImportance first_forest =
     Inr ([Fin 1, Fin 0], first_forest\<lparr>fVariableImportance := [Fin 1, Fin 0]\<rparr>) \<and>
   GetVariableImportance (second_forest (first_forest\<lparr>fVariableImportance := [Fin 1, Fin 0]\<rparr>)) =
     Inr ([Fin (2/3), Fin (1/3)],
          second_forest (first_forest\<lparr>fVariableImportance := [Fin (2/3), Fin (1/3)]\<rparr>)) \<and>
   GetVariableImportance (second_forest (first_forest\<lparr>fVariableImportance := [Fin (2/3), Fin (1/3)]\<rparr>)) =
     Inr ([Fin (5/9), Fin (4/9)],
          second_forest (first_forest\<lparr>fVariableImportance := [Fin (5/9), Fin (4/9)]\<rparr>)) \<and>
   [Fin (5/9), Fin (4/9)] \<noteq> [Fin (2/3), Fin (1/3)]"
  by (simp add: GetVariableImportance_def first_forest_def second_forest_def
      importance_tree_def untrained_def always_signal_def resize_def vector_at_def
      dsum_def dacc_def Let_def numeral_2_eq_2)

section \<open>Claims about persistence\<close>




end
